theory Spec2Isabelle
  imports Main
begin

section \<open>Python values used by the importer\<close>

text \<open>
  A Python \<open>str\<close> is a list of code points; the model covers the code points below 256,
  one \<open>char\<close> each. A \<open>dict\<close> with string keys is a map. Every exception the two
  source files can raise on their own is a constructor of \<open>py_error\<close>; the argument is
  the key, the literal or the attribute the exception names.
\<close>

datatype py_error =
    IOError
  | StopIteration
  | KeyError string
  | ValueError string
  | AttributeError string
  | MySQLError string

type_synonym csv_row = "string \<rightharpoonup> string"

text \<open>\<open>str.isspace\<close> on one code point below 256.\<close>

definition is_space :: "char \<Rightarrow> bool" where
  "is_space c \<longleftrightarrow> c \<in> set [CHR 0x09, CHR 0x0A, CHR 0x0B, CHR 0x0C, CHR 0x0D,
     CHR 0x1C, CHR 0x1D, CHR 0x1E, CHR 0x1F, CHR 0x20, CHR 0x85, CHR 0xA0]"

text \<open>\<open>s.strip()\<close>: leading and trailing whitespace removed.\<close>

definition strip :: "string \<Rightarrow> string" where
  "strip s = rev (dropWhile is_space (rev (dropWhile is_space s)))"

text \<open>\<open>s.split(sep)\<close> for a one-character separator; \<open>acc\<close> is the current token, reversed.\<close>

fun split_acc :: "char \<Rightarrow> string \<Rightarrow> string \<Rightarrow> string list" where
  "split_acc sep acc [] = [rev acc]"
| "split_acc sep acc (c # cs) =
     (if c = sep then rev acc # split_acc sep [] cs else split_acc sep (c # acc) cs)"

definition split :: "string \<Rightarrow> char \<Rightarrow> string list" where
  "split s sep = split_acc sep [] s"

text \<open>
  \<open>int(s)\<close> on a string: surrounding whitespace is dropped, one sign is allowed, then
  decimal digits, where a single underscore may stand between two digits. Anything else
  is a ValueError, here \<open>None\<close>. The whitespace \<open>int\<close> drops is not that of
  \<open>str.strip\<close>: below 128 it is the C set (tab to carriage return, and the blank), so
  the separators \<open>0x1C\<close> to \<open>0x1F\<close> are not dropped and make the literal invalid; above
  that, \<open>0x85\<close> and \<open>0xA0\<close> are turned into blanks first. A literal of more than
  \<open>sys.int_max_str_digits\<close> digits (4300 by default; underscores do not count, leading
  zeros do) is a ValueError too.
\<close>

definition is_int_space :: "char \<Rightarrow> bool" where
  "is_int_space c \<longleftrightarrow> c \<in> set [CHR 0x09, CHR 0x0A, CHR 0x0B, CHR 0x0C, CHR 0x0D,
     CHR 0x20, CHR 0x85, CHR 0xA0]"

definition int_trim :: "string \<Rightarrow> string" where
  "int_trim s = rev (dropWhile is_int_space (rev (dropWhile is_int_space s)))"

definition int_max_str_digits :: nat where
  "int_max_str_digits = 4300"

definition is_digit :: "char \<Rightarrow> bool" where
  "is_digit c \<longleftrightarrow> c \<in> set ''0123456789''"

definition digit_val :: "char \<Rightarrow> int" where
  "digit_val c = int (of_char c) - 48"

fun py_digits :: "int \<Rightarrow> string \<Rightarrow> int option" where
  "py_digits acc [] = Some acc"
| "py_digits acc [c] = (if is_digit c then Some (10 * acc + digit_val c) else None)"
| "py_digits acc (c # d # cs) =
     (if is_digit c then py_digits (10 * acc + digit_val c) (d # cs)
      else if c = CHR ''_'' \<and> is_digit d then py_digits acc (d # cs)
      else None)"

definition py_unsigned :: "string \<Rightarrow> int option" where
  "py_unsigned body =
     (case body of [] \<Rightarrow> None
      | b # _ \<Rightarrow>
          if is_digit b \<and> length (filter is_digit body) \<le> int_max_str_digits
          then py_digits 0 body else None)"

definition py_int :: "string \<Rightarrow> int option" where
  "py_int s =
     (case int_trim s of [] \<Rightarrow> None
      | c # cs \<Rightarrow>
          if c = CHR ''-'' then map_option uminus (py_unsigned cs)
          else if c = CHR ''+'' then py_unsigned cs
          else py_unsigned (c # cs))"

text \<open>\<open>dict(zip(keys, vals))\<close>: pairs up to the shorter list; a repeated key keeps its last value.\<close>

definition dict_zip :: "'k list \<Rightarrow> 'v list \<Rightarrow> ('k \<rightharpoonup> 'v)" where
  "dict_zip keys vals = map_of (rev (zip keys vals))"

text \<open>\<open>row[key]\<close>, which raises KeyError on a missing key.\<close>

definition getitem :: "csv_row \<Rightarrow> string \<Rightarrow> py_error + string" where
  "getitem row k = (case row k of None \<Rightarrow> Inl (KeyError k) | Some v \<Rightarrow> Inr v)"

section \<open>CSVReader\<close>

text \<open>
  \<open>CSVReader.read_file(filename, columns)\<close>. The file is given by what \<open>csv.reader\<close>
  yields for it, the list of its rows, each a list of fields; \<open>None\<close> is a file that
  cannot be opened. Without \<open>columns\<close> the first row is taken with \<open>next(reader)\<close>
  (StopIteration on an empty file), and then \<open>file.seek(0)\<close> and a fresh reader start
  the loop from the first row again. Every exception is printed and raised again.
\<close>

definition collect_rows :: "string list \<Rightarrow> string list list \<Rightarrow> csv_row list" where
  "collect_rows columns rows =
     map (dict_zip columns) (filter (\<lambda>row. length row = length columns) rows)"

definition read_file :: "string list list option \<Rightarrow> string list option \<Rightarrow> py_error + csv_row list" where
  "read_file file columns =
     (case file of
        None \<Rightarrow> Inl IOError
      | Some rows \<Rightarrow>
          (case columns of
             Some cols \<Rightarrow> Inr (collect_rows cols rows)
           | None \<Rightarrow>
               (case rows of
                  [] \<Rightarrow> Inl StopIteration
                | header # _ \<Rightarrow> Inr (collect_rows header rows))))"

section \<open>The database behind the connection\<close>

text \<open>
  The MySQL server is outside the two source files; the model keeps what the statements
  of the source need. A table definition has a name, its columns and its foreign keys
  (column, referenced table, referenced column). Rows carry the key the server generates
  for an AUTO_INCREMENT column. A connection holds the table definitions (DDL takes
  effect at once), the rows as the open transaction sees them (\<open>working\<close>) and the rows
  last committed (\<open>durable\<close>). An INSERT is taken to succeed.
\<close>

record table_def =
  table_name :: string
  table_columns :: "(string \<times> string) list"
  foreign_keys :: "(string \<times> string \<times> string) list"

record episode_row =
  episode_id :: nat
  title :: string
  season_number :: int
  episode_number :: int
  painting_img_src :: string
  painting_yt_src :: string
  air_date :: "string option"

record color_row =
  color_id :: nat
  color_name :: string
  color_hex :: string

record subject_matter_row =
  subject_matter_id :: nat
  subject_matter_name :: string

record tables =
  episodes :: "episode_row list"
  colors :: "color_row list"
  episode_colors :: "(nat \<times> nat) list"
  subject_matters :: "subject_matter_row list"
  episode_subject_matters :: "(nat \<times> nat) list"

record connection =
  table_defs :: "table_def list"
  working :: tables
  durable :: tables

definition commit :: "connection \<Rightarrow> connection" where
  "commit c = c\<lparr>durable := working c\<rparr>"

text \<open>The next AUTO_INCREMENT value: one more than the largest key in the table.\<close>

definition next_id :: "nat list \<Rightarrow> nat" where
  "next_id ids = Suc (fold max ids 0)"

section \<open>DataImporter.setup_tables\<close>

text \<open>
  \<open>CREATE TABLE IF NOT EXISTS\<close>: nothing happens when a table of that name exists;
  otherwise the table is added, unless a foreign key names a table or column that does
  not exist, which the server rejects.
\<close>

definition fk_resolves :: "table_def list \<Rightarrow> string \<times> string \<times> string \<Rightarrow> bool" where
  "fk_resolves defs fk =
     (case fk of (col, ref_table, ref_col) \<Rightarrow>
        list_ex (\<lambda>t. table_name t = ref_table \<and> ref_col \<in> set (map fst (table_columns t))) defs)"

definition create_table_if_not_exists :: "table_def \<Rightarrow> table_def list \<Rightarrow> py_error + table_def list" where
  "create_table_if_not_exists t defs =
     (if table_name t \<in> set (map table_name defs) then Inr defs
      else if list_all (fk_resolves defs) (foreign_keys t) then Inr (defs @ [t])
      else Inl (MySQLError (table_name t)))"

text \<open>The five statements of \<open>queries\<close>, in the order of the dict.\<close>

definition episodes_def :: table_def where
  "episodes_def = \<lparr>table_name = ''episodes'',
     table_columns = [(''episode_id'', ''INT AUTO_INCREMENT PRIMARY KEY''),
       (''title'', ''VARCHAR(255)''), (''season_number'', ''INT''),
       (''episode_number'', ''INT''), (''painting_img_src'', ''VARCHAR(255)''),
       (''painting_yt_src'', ''VARCHAR(255)''), (''air_date'', ''DATE'')],
     foreign_keys = []\<rparr>"

definition colors_def :: table_def where
  "colors_def = \<lparr>table_name = ''colors'',
     table_columns = [(''color_id'', ''INT AUTO_INCREMENT PRIMARY KEY''),
       (''color_name'', ''VARCHAR(255)''), (''color_hex'', ''VARCHAR(255)'')],
     foreign_keys = []\<rparr>"

definition episode_colors_def :: table_def where
  "episode_colors_def = \<lparr>table_name = ''episode_colors'',
     table_columns = [(''episode_id'', ''INT''), (''color_id'', ''INT'')],
     foreign_keys = [(''episode_id'', ''episodes'', ''episode_id''),
       (''color_id'', ''colors'', ''color_id'')]\<rparr>"

definition subject_matters_def :: table_def where
  "subject_matters_def = \<lparr>table_name = ''subject_matters'',
     table_columns = [(''subject_matter_id'', ''INT AUTO_INCREMENT PRIMARY KEY''),
       (''subject_matter_name'', ''VARCHAR(255)'')],
     foreign_keys = []\<rparr>"

definition episode_subject_matters_def :: table_def where
  "episode_subject_matters_def = \<lparr>table_name = ''episode_subject_matters'',
     table_columns = [(''episode_id'', ''INT''), (''subject_matter_id'', ''INT'')],
     foreign_keys = [(''episode_id'', ''episodes'', ''episode_id''),
       (''subject_matter_id'', ''subject_matters'', ''subject_matter_id'')]\<rparr>"

definition queries :: "table_def list" where
  "queries = [episodes_def, colors_def, episode_colors_def, subject_matters_def,
     episode_subject_matters_def]"

text \<open>
  The loop over \<open>queries.items()\<close>: it stops at the first statement that raises. The
  tables created by the statements before it stay.
\<close>

fun execute_all :: "table_def list \<Rightarrow> table_def list \<Rightarrow> py_error option \<times> table_def list" where
  "execute_all [] defs = (None, defs)"
| "execute_all (q # qs) defs =
     (case create_table_if_not_exists q defs of
        Inl e \<Rightarrow> (Some e, defs)
      | Inr defs' \<Rightarrow> execute_all qs defs')"

text \<open>
  \<open>setup_tables\<close>: the statements, then \<open>commit\<close>. The result is the exception raised,
  if any, and the connection as the call leaves it.
\<close>

definition setup_tables :: "connection \<Rightarrow> py_error option \<times> connection" where
  "setup_tables c =
     (case execute_all queries (table_defs c) of
        (Some e, defs) \<Rightarrow> (Some e, c\<lparr>table_defs := defs\<rparr>)
      | (None, defs) \<Rightarrow> (None, commit (c\<lparr>table_defs := defs\<rparr>)))"

text \<open>\<open>n\<close> calls in a row; a call that raises ends the sequence.\<close>

fun setup_tables_times :: "nat \<Rightarrow> connection \<Rightarrow> py_error option \<times> connection" where
  "setup_tables_times 0 c = (None, c)"
| "setup_tables_times (Suc n) c =
     (case setup_tables c of
        (Some e, c') \<Rightarrow> (Some e, c')
      | (None, c') \<Rightarrow> setup_tables_times n c')"

section \<open>The import steps\<close>

text \<open>Sequencing of steps that may raise: the first exception ends the sequence.\<close>

definition and_then :: "py_error + 'a \<Rightarrow> ('a \<Rightarrow> py_error + 'b) \<Rightarrow> py_error + 'b" where
  "and_then m f = (case m of Inl e \<Rightarrow> Inl e | Inr x \<Rightarrow> f x)"

definition to_int :: "string \<Rightarrow> py_error + int" where
  "to_int s = (case py_int s of None \<Rightarrow> Inl (ValueError s) | Some n \<Rightarrow> Inr n)"

subsection \<open>\<open>_import_episodes\<close>\<close>

text \<open>
  \<open>next((date['Date'] for date in dates_data if date['Title'].strip() == title), None)\<close>:
  the generator reads \<open>date['Title']\<close> of each record up to the first match and
  \<open>date['Date']\<close> of that match only.
\<close>

fun find_air_date :: "csv_row list \<Rightarrow> string \<Rightarrow> py_error + string option" where
  "find_air_date [] ttl = Inr None"
| "find_air_date (date # rest) ttl =
     and_then (getitem date ''Title'') (\<lambda>t.
       if strip t = ttl then and_then (getitem date ''Date'') (\<lambda>d. Inr (Some d))
       else find_air_date rest ttl)"

text \<open>The body of the loop up to \<open>cursor.execute\<close>: the parameters of the INSERT.\<close>

type_synonym episode_params = "string \<times> int \<times> int \<times> string \<times> string \<times> string option"

definition episode_values :: "csv_row list \<Rightarrow> csv_row \<Rightarrow> py_error + episode_params" where
  "episode_values dates_data row =
     and_then (getitem row ''painting_title'') (\<lambda>ttl.
     and_then (getitem row ''season'') (\<lambda>s.
     and_then (to_int s) (\<lambda>season.
     and_then (getitem row ''episode'') (\<lambda>e.
     and_then (to_int e) (\<lambda>episode.
     and_then (getitem row ''img_src'') (\<lambda>img_src.
     and_then (getitem row ''youtube_src'') (\<lambda>youtube_src.
     and_then (find_air_date dates_data ttl) (\<lambda>air.
     Inr (ttl, season, episode, img_src, youtube_src, air)))))))))"

definition insert_episode :: "episode_params \<Rightarrow> tables \<Rightarrow> tables" where
  "insert_episode v t =
     (case v of (ttl, season, episode, img_src, youtube_src, air) \<Rightarrow>
        t\<lparr>episodes := episodes t @
          [\<lparr>episode_id = next_id (map episode_id (episodes t)), title = ttl,
            season_number = season, episode_number = episode,
            painting_img_src = img_src, painting_yt_src = youtube_src,
            air_date = air\<rparr>]\<rparr>)"

fun insert_episodes :: "csv_row list \<Rightarrow> csv_row list \<Rightarrow> tables \<Rightarrow> py_error option \<times> tables" where
  "insert_episodes [] dates_data t = (None, t)"
| "insert_episodes (row # rows) dates_data t =
     (case episode_values dates_data row of
        Inl e \<Rightarrow> (Some e, t)
      | Inr v \<Rightarrow> insert_episodes rows dates_data (insert_episode v t))"

text \<open>
  The whole method: the loop, then \<open>commit\<close>. An exception inside the loop is printed and
  raised again, so the commit is not reached.
\<close>

definition import_episodes :: "csv_row list \<Rightarrow> csv_row list \<Rightarrow> connection \<Rightarrow> py_error option \<times> connection" where
  "import_episodes colors_data dates_data c =
     (case insert_episodes colors_data dates_data (working c) of
        (Some e, t) \<Rightarrow> (Some e, c\<lparr>working := t\<rparr>)
      | (None, t) \<Rightarrow> (None, commit (c\<lparr>working := t\<rparr>)))"

subsection \<open>\<open>_import_colors\<close>\<close>

fun color_names_hex :: "csv_row list \<Rightarrow> py_error + (string \<times> string) list" where
  "color_names_hex [] = Inr []"
| "color_names_hex (row # rows) =
     and_then (getitem row ''colors'') (\<lambda>color.
     and_then (getitem row ''color_hex'') (\<lambda>hex.
     and_then (color_names_hex rows) (\<lambda>rest. Inr ((color, hex) # rest))))"

definition insert_color :: "string \<times> string \<Rightarrow> tables \<Rightarrow> tables" where
  "insert_color v t =
     t\<lparr>colors := colors t @
       [\<lparr>color_id = next_id (map color_id (colors t)), color_name = fst v, color_hex = snd v\<rparr>]\<rparr>"

definition import_colors :: "csv_row list \<Rightarrow> connection \<Rightarrow> py_error option \<times> connection" where
  "import_colors colors_data c =
     (case color_names_hex colors_data of
        Inl e \<Rightarrow> (Some e, c)
      | Inr pairs \<Rightarrow> (None, commit (c\<lparr>working := fold insert_color pairs (working c)\<rparr>)))"

subsection \<open>\<open>_import_subject_matters\<close>\<close>

text \<open>
  The Python set is a list without repetition. Python fixes no iteration order for a
  set, so the order in which the second loop visits it is a parameter, \<open>iter_order\<close>.
\<close>

definition set_add :: "string \<Rightarrow> string list \<Rightarrow> string list" where
  "set_add x s = (if x \<in> set s then s else s @ [x])"

definition set_update :: "string list \<Rightarrow> string list \<Rightarrow> string list" where
  "set_update s xs = fold set_add xs s"

fun collect_subjects :: "csv_row list \<Rightarrow> string list \<Rightarrow> py_error + string list" where
  "collect_subjects [] s = Inr s"
| "collect_subjects (row # rows) s =
     and_then (getitem row ''EPISODE'') (\<lambda>v.
       collect_subjects rows (set_update s (split v (CHR '';''))))"

definition insert_subject_matter :: "string \<Rightarrow> tables \<Rightarrow> tables" where
  "insert_subject_matter name t =
     t\<lparr>subject_matters := subject_matters t @
       [\<lparr>subject_matter_id = next_id (map subject_matter_id (subject_matters t)),
         subject_matter_name = name\<rparr>]\<rparr>"

definition import_subject_matters ::
  "(string list \<Rightarrow> string list) \<Rightarrow> csv_row list \<Rightarrow> connection \<Rightarrow> py_error option \<times> connection" where
  "import_subject_matters iter_order subject_matters_data c =
     (case collect_subjects subject_matters_data [] of
        Inl e \<Rightarrow> (Some e, c)
      | Inr s \<Rightarrow>
          (None, commit (c\<lparr>working := fold insert_subject_matter (iter_order s) (working c)\<rparr>)))"

subsection \<open>\<open>import_data\<close>\<close>

text \<open>
  The three files are read with the column lists written in the source; then the steps
  run in order. The class defines neither \<open>_import_episode_colors\<close> nor
  \<open>_import_episode_subject_matters\<close>, so the fourth call raises AttributeError.
\<close>

definition then_run ::
  "py_error option \<times> connection \<Rightarrow> (connection \<Rightarrow> py_error option \<times> connection) \<Rightarrow>
   py_error option \<times> connection" where
  "then_run r step = (case r of (Some e, c) \<Rightarrow> (Some e, c) | (None, c) \<Rightarrow> step c)"

definition colors_columns :: "string list" where
  "colors_columns = [''painting_title'', ''season'', ''episode'', ''img_src'', ''youtube_src'',
     ''colors'', ''color_hex'']"

definition import_data ::
  "(string list \<Rightarrow> string list) \<Rightarrow> string list list option \<Rightarrow> string list list option \<Rightarrow>
   string list list option \<Rightarrow> connection \<Rightarrow> py_error option \<times> connection" where
  "import_data iter_order colors_file subject_file dates_file c =
     (case read_file colors_file (Some colors_columns) of
        Inl e \<Rightarrow> (Some e, c)
      | Inr colors_data \<Rightarrow>
     (case read_file subject_file (Some [''EPISODE'']) of
        Inl e \<Rightarrow> (Some e, c)
      | Inr subject_matters_data \<Rightarrow>
     (case read_file dates_file (Some [''Title'', ''Date'']) of
        Inl e \<Rightarrow> (Some e, c)
      | Inr dates_data \<Rightarrow>
          then_run (then_run (then_run (import_episodes colors_data dates_data c)
            (import_colors colors_data))
            (import_subject_matters iter_order subject_matters_data))
            (\<lambda>c'. (Some (AttributeError ''_import_episode_colors''), c')))))"

section \<open>The HTTP handler \<open>get_episode\<close>\<close>

text \<open>
  A value of a result row, and of a JSON object built from one. The server is either
  the committed tables, or the message of the exception that connecting or executing
  raises. The route converter \<open>int\<close> passes a natural number.
\<close>

datatype sql_value = SqlNull | SqlInt int | SqlStr string

type_synonym response = "nat \<times> (string \<rightharpoonup> sql_value)"

definition episode_tuple :: "episode_row \<Rightarrow> sql_value list" where
  "episode_tuple e =
     [SqlInt (int (episode_id e)), SqlStr (title e), SqlInt (season_number e),
      SqlInt (episode_number e), SqlStr (painting_img_src e), SqlStr (painting_yt_src e),
      (case air_date e of None \<Rightarrow> SqlNull | Some d \<Rightarrow> SqlStr d)]"

text \<open>\<open>SELECT * FROM episodes WHERE episode_id = %s\<close>: the description and the rows.\<close>

definition select_episode :: "tables \<Rightarrow> nat \<Rightarrow> string list \<times> sql_value list list" where
  "select_episode t i =
     (map fst (table_columns episodes_def),
      map episode_tuple (filter (\<lambda>e. episode_id e = i) (episodes t)))"

definition fetchone :: "sql_value list list \<Rightarrow> sql_value list option" where
  "fetchone rows = (case rows of [] \<Rightarrow> None | r # _ \<Rightarrow> Some r)"

definition get_episode :: "string + tables \<Rightarrow> nat \<Rightarrow> response" where
  "get_episode server i =
     (case server of
        Inl msg \<Rightarrow> (500, [''error'' \<mapsto> SqlStr msg])
      | Inr t \<Rightarrow>
          (case select_episode t i of (columns, rows) \<Rightarrow>
             (case fetchone rows of
                Some result \<Rightarrow>
                  if result \<noteq> [] then (200, dict_zip columns result)
                  else (404, [''error'' \<mapsto> SqlStr ''Episode not found''])
              | None \<Rightarrow> (404, [''error'' \<mapsto> SqlStr ''Episode not found'']))))"

section \<open>Notions used in the statements\<close>

text \<open>A database with no table and no row, as the import run expects to find it.\<close>

definition empty_tables :: tables where
  "empty_tables = \<lparr>episodes = [], colors = [], episode_colors = [], subject_matters = [],
     episode_subject_matters = []\<rparr>"

definition fresh_connection :: connection where
  "fresh_connection = \<lparr>table_defs = [], working = empty_tables, durable = empty_tables\<rparr>"

text \<open>
  A color row that the loop of \<open>_import_episodes\<close> can process: the five keys it reads
  are present and the two numeric fields are integer literals. A dates record with both
  of its keys. \<open>read_file\<close> with the column lists of \<open>import_data\<close> yields records
  with exactly these keys.
\<close>

definition valid_color_row :: "csv_row \<Rightarrow> bool" where
  "valid_color_row row \<longleftrightarrow>
     row ''painting_title'' \<noteq> None \<and>
     (case row ''season'' of None \<Rightarrow> False | Some s \<Rightarrow> py_int s \<noteq> None) \<and>
     (case row ''episode'' of None \<Rightarrow> False | Some e \<Rightarrow> py_int e \<noteq> None) \<and>
     row ''img_src'' \<noteq> None \<and> row ''youtube_src'' \<noteq> None"

definition valid_date_row :: "csv_row \<Rightarrow> bool" where
  "valid_date_row d \<longleftrightarrow> d ''Title'' \<noteq> None \<and> d ''Date'' \<noteq> None"

text \<open>An episode row without its generated key: the parameters it was inserted with.\<close>

definition episode_fields :: "episode_row \<Rightarrow> episode_params" where
  "episode_fields e =
     (title e, season_number e, episode_number e, painting_img_src e, painting_yt_src e,
      air_date e)"

text \<open>
  Sample data: two color rows of one episode and a dates record whose title carries a
  trailing blank; a color row whose season is not a number; a color row whose title
  carries a leading blank.
\<close>

definition sample_colors :: "csv_row list" where
  "sample_colors = collect_rows colors_columns
     [[''Mountain Grandeur'', ''1'', ''1'', ''img1'', ''yt1'', ''Van Dyke Brown'', ''#5C4033''],
      [''Mountain Grandeur'', ''1'', ''1'', ''img1'', ''yt1'', ''Titanium White'', ''#FFFFFF'']]"

definition sample_dates :: "csv_row list" where
  "sample_dates = collect_rows [''Title'', ''Date''] [[''Mountain Grandeur '', ''1983-01-11'']]"


definition padded_colors :: "csv_row list" where
  "padded_colors = collect_rows colors_columns
     [['' Mountain Grandeur'', ''1'', ''1'', ''img1'', ''yt1'', ''Van Dyke Brown'', ''#5C4033'']]"

text \<open>
  A subject-matter dataset with a repeated tag and a tag that differs from another by a
  leading blank; the three files of a small import run; an episode row as the API reads
  it.
\<close>

definition sample_subjects :: "csv_row list" where
  "sample_subjects = collect_rows [''EPISODE''] [[''MOUNTAIN;TREE''], [''TREE; SNOW;MOUNTAIN'']]"

definition scenario_colors_file :: "string list list" where
  "scenario_colors_file =
     [[''Mountain Grandeur'', ''1'', ''1'', ''img1'', ''yt1'', ''Van Dyke Brown'', ''#5C4033''],
      [''Mountain Grandeur'', ''1'', ''1'', ''img1'', ''yt1'', ''Titanium White'', ''#FFFFFF'']]"

definition scenario_subject_file :: "string list list" where
  "scenario_subject_file = [[''MOUNTAIN;TREE'']]"

definition scenario_dates_file :: "string list list" where
  "scenario_dates_file = [[''Mountain Grandeur'', ''1983-01-11'']]"

definition sample_episode :: episode_row where
  "sample_episode = \<lparr>episode_id = 7, title = ''Mountain Grandeur'', season_number = 1,
     episode_number = 1, painting_img_src = ''img1'', painting_yt_src = ''yt1'',
     air_date = Some ''1983-01-11''\<rparr>"

text \<open>The two join tables as the open transaction sees them.\<close>

definition joins :: "connection \<Rightarrow> (nat \<times> nat) list \<times> (nat \<times> nat) list" where
  "joins c = (episode_colors (working c), episode_subject_matters (working c))"

section \<open>Strings\<close>

lemma last_dropWhile: "dropWhile P xs \<noteq> [] \<Longrightarrow> last (dropWhile P xs) = last xs"
  by (induction xs) (auto split: if_splits)

lemma strip_hd: "strip s \<noteq> [] \<Longrightarrow> \<not> is_space (hd (strip s))"
proof -
  assume ne: "strip s \<noteq> []"
  let ?u = "dropWhile is_space s"
  from ne have d: "dropWhile is_space (rev ?u) \<noteq> []" by (simp add: strip_def)
  then have u: "?u \<noteq> []" by (cases "dropWhile is_space s") simp_all
  have "hd (strip s) = last (dropWhile is_space (rev ?u))"
    using d by (simp add: strip_def hd_rev)
  also have "\<dots> = last (rev ?u)" using d by (rule last_dropWhile)
  also have "\<dots> = hd ?u" using u by (simp add: last_rev)
  finally show ?thesis using u hd_dropWhile[of is_space s] by simp
qed

lemma strip_last: "strip s \<noteq> [] \<Longrightarrow> \<not> is_space (last (strip s))"
proof -
  assume ne: "strip s \<noteq> []"
  let ?u = "dropWhile is_space s"
  from ne have d: "dropWhile is_space (rev ?u) \<noteq> []" by (simp add: strip_def)
  have "last (strip s) = hd (dropWhile is_space (rev ?u))"
    using d by (simp add: strip_def last_rev)
  then show ?thesis using d hd_dropWhile[of is_space "rev ?u"] by simp
qed

lemma strip_neq_padded:
  "ttl \<noteq> [] \<Longrightarrow> is_space (hd ttl) \<or> is_space (last ttl) \<Longrightarrow> strip t \<noteq> ttl"
  using strip_hd[of t] strip_last[of t] by auto

text \<open>
  What \<open>int\<close> accepts: a sign, underscores between digits and the whitespace it drops;
  what it rejects: a separator that \<open>str.strip\<close> would drop, a blank after the sign, a
  doubled or trailing underscore, and a literal over the digit limit.
\<close>

lemma py_int_accepts:
  "py_int '' -1_000 '' = Some (- 1000) \<and> py_int ''+007'' = Some 7 \<and>
   py_int [CHR 0xA0, CHR ''1'', CHR 0x85] = Some 1 \<and> py_int [CHR 0x0B, CHR ''1'', CHR 0x0C] = Some 1"
  by (simp add: py_int_def py_unsigned_def int_trim_def is_int_space_def int_max_str_digits_def
      is_digit_def digit_val_def)

lemma py_int_rejects:
  "py_int [CHR 0x1C, CHR ''1''] = None \<and> py_int [CHR ''1'', CHR 0x1F] = None \<and>
   strip [CHR 0x1C, CHR ''1''] = ''1'' \<and>
   py_int ''- 1'' = None \<and> py_int ''1__0'' = None \<and> py_int ''1_'' = None \<and>
   py_int ''_1'' = None \<and> py_int [] = None \<and> py_int ''1.5'' = None"
  by (simp add: py_int_def py_unsigned_def int_trim_def is_int_space_def int_max_str_digits_def
      is_digit_def digit_val_def strip_def is_space_def)

lemma py_unsigned_limit:
  "int_max_str_digits < length (filter is_digit body) \<Longrightarrow> py_unsigned body = None"
  by (cases body) (auto simp: py_unsigned_def)

section \<open>The CSV loader\<close>

lemma map_of_diagonal:
  "\<forall>p\<in>set ps. snd p = fst p \<Longrightarrow> map_of ps k = (if k \<in> fst ` set ps then Some k else None)"
  by (induction ps) auto

lemma dict_zip_self: "dict_zip h h k = (if k \<in> set h then Some k else None)"
proof -
  have "\<forall>p\<in>set (rev (zip h h)). snd p = fst p"
    by (auto simp: zip_same)
  moreover have "map fst (zip h h) = h"
    by (induction h) auto
  then have "fst ` set (rev (zip h h)) = set h"
    by (metis set_map set_rev)
  ultimately show ?thesis
    unfolding dict_zip_def using map_of_diagonal[of "rev (zip h h)" k] by simp
qed

text \<open>
  C7. A row whose number of fields differs from the number of columns is skipped: the
  call returns, and it returns what it returns for the file without that row. This holds
  with an explicit column list, and with the header taken from the file for every row
  after the first.
\<close>

theorem read_file_skips_mismatched_row:
  "length r \<noteq> length cols \<Longrightarrow>
   read_file (Some (xs @ r # ys)) (Some cols) = Inr (collect_rows cols (xs @ ys)) \<and>
   read_file (Some (xs @ ys)) (Some cols) = Inr (collect_rows cols (xs @ ys)) \<and>
   read_file (Some (cols # xs @ r # ys)) None = read_file (Some (cols # xs @ ys)) None"
  by (simp add: read_file_def collect_rows_def)

theorem read_file_skips_mismatched_row_witness:
  "read_file (Some ([[''a'', ''1'']] @ [''b''] # [[''c'', ''3'']])) (Some [''name'', ''n''])
     = Inr (collect_rows [''name'', ''n''] ([[''a'', ''1'']] @ [[''c'', ''3'']])) \<and>
   length (collect_rows [''name'', ''n''] ([[''a'', ''1'']] @ [[''c'', ''3'']])) = 2"
  using read_file_skips_mismatched_row
    [of "[''b'']" "[''name'', ''n'']" "[[''a'', ''1'']]" "[[''c'', ''3'']]"]
  by (simp add: collect_rows_def)

text \<open>
  C5, as the code has it. Without a column list the first row gives the field names, and
  the loop then starts from the first row again: the header row is the first record of
  the output, mapping every field name to itself, followed by the records of the later
  rows that have as many fields as the header.
\<close>

theorem read_file_header_is_first_record:
  "read_file (Some (header # rest)) None = Inr (dict_zip header header # collect_rows header rest) \<and>
   dict_zip header header k = (if k \<in> set header then Some k else None) \<and>
   read_file (Some []) None = Inl StopIteration"
  by (simp add: read_file_def collect_rows_def dict_zip_self)

text \<open>
  C5, as the claim has it, fails: for a header and one data row, the output is not the
  one record of the data row.
\<close>

theorem read_file_header_counterexample:
  "read_file (Some [[''Title'', ''Date''], [''x'', ''y'']]) None \<noteq>
   Inr (collect_rows [''Title'', ''Date''] [[''x'', ''y'']])"
  by (simp add: read_file_def collect_rows_def)

section \<open>The episode import\<close>

lemma find_air_date_valid:
  "\<forall>d\<in>set dates. valid_date_row d \<Longrightarrow>
   find_air_date dates ttl =
     Inr (case find (\<lambda>d. strip (the (d ''Title'')) = ttl) dates of
            None \<Rightarrow> None | Some d \<Rightarrow> d ''Date'')"
  by (induction dates) (auto simp: valid_date_row_def and_then_def getitem_def)

lemma episode_values_valid:
  assumes "valid_color_row row" and "\<forall>d\<in>set dates. valid_date_row d"
  shows "episode_values dates row =
     Inr (the (row ''painting_title''), the (py_int (the (row ''season''))),
          the (py_int (the (row ''episode''))), the (row ''img_src''), the (row ''youtube_src''),
          (case find (\<lambda>d. strip (the (d ''Title'')) = the (row ''painting_title'')) dates of
             None \<Rightarrow> None | Some d \<Rightarrow> d ''Date''))"
  using assms(1) find_air_date_valid[OF assms(2)]
  by (auto simp: valid_color_row_def episode_values_def and_then_def getitem_def to_int_def
      split: option.splits)

lemma fold_max_ge: "a \<le> fold max ids (a::nat) \<and> (\<forall>x\<in>set ids. x \<le> fold max ids a)"
proof (induction ids arbitrary: a)
  case Nil
  then show ?case by simp
next
  case (Cons i ids)
  from Cons.IH[of "max i a"] show ?case by auto
qed

lemma next_id_fresh: "next_id ids \<notin> set ids"
  using fold_max_ge[of 0 ids] by (auto simp: next_id_def)

lemma fold_insert_episode:
  "\<exists>new. fold insert_episode vs t = t\<lparr>episodes := episodes t @ new\<rparr> \<and>
     map episode_fields new = vs \<and>
     (distinct (map episode_id (episodes t)) \<longrightarrow> distinct (map episode_id (episodes t @ new)))"
proof (induction vs arbitrary: t)
  case Nil
  then show ?case by simp
next
  case (Cons v vs)
  define e where "e = last (episodes (insert_episode v t))"
  have e: "insert_episode v t = t\<lparr>episodes := episodes t @ [e]\<rparr>"
    and ef: "episode_fields e = v" and eid: "episode_id e = next_id (map episode_id (episodes t))"
    unfolding e_def by (cases v; simp add: insert_episode_def episode_fields_def)+
  from Cons.IH[of "insert_episode v t"] obtain new where
    n: "fold insert_episode vs (insert_episode v t) =
          (insert_episode v t)\<lparr>episodes := episodes (insert_episode v t) @ new\<rparr>"
    and nf: "map episode_fields new = vs"
    and nd: "distinct (map episode_id (episodes (insert_episode v t))) \<longrightarrow>
             distinct (map episode_id (episodes (insert_episode v t) @ new))"
    by blast
  have a: "fold insert_episode (v # vs) t = t\<lparr>episodes := episodes t @ (e # new)\<rparr>"
    using n e by simp
  have b: "map episode_fields (e # new) = v # vs" using ef nf by simp
  have c: "distinct (map episode_id (episodes t)) \<longrightarrow>
      distinct (map episode_id (episodes t @ (e # new)))"
    using nd e eid next_id_fresh[of "map episode_id (episodes t)"] by auto
  show ?case by (rule exI[of _ "e # new"]) (rule conjI[OF a conjI[OF b c]])
qed

lemma insert_episodes_valid:
  "\<forall>row\<in>set rows. \<not> isl (episode_values dates row) \<Longrightarrow>
   insert_episodes rows dates t =
     (None, fold insert_episode (map (\<lambda>row. projr (episode_values dates row)) rows) t)"
  by (induction rows arbitrary: t) (auto split: sum.splits)


lemma insert_episodes_count:
  "length (episodes (snd (insert_episodes rows dates t))) =
     length (episodes t) + length (takeWhile (\<lambda>row. \<not> isl (episode_values dates row)) rows)"
  by (induction rows arbitrary: t) (auto simp: insert_episode_def split: sum.splits prod.splits)


lemma valid_not_isl:
  "valid_color_row row \<Longrightarrow> \<forall>d\<in>set dates. valid_date_row d \<Longrightarrow> \<not> isl (episode_values dates row)"
  by (simp add: episode_values_valid)

lemma import_episodes_valid:
  assumes vc: "\<forall>row\<in>set colors_data. valid_color_row row"
    and vd: "\<forall>d\<in>set dates_data. valid_date_row d"
  shows "\<exists>new. import_episodes colors_data dates_data c =
           (None, commit (c\<lparr>working := (working c)\<lparr>episodes := episodes (working c) @ new\<rparr>\<rparr>)) \<and>
         map episode_fields new = map (\<lambda>row. projr (episode_values dates_data row)) colors_data \<and>
         (distinct (map episode_id (episodes (working c))) \<longrightarrow>
          distinct (map episode_id (episodes (working c) @ new)))"
proof -
  let ?vs = "map (\<lambda>row. projr (episode_values dates_data row)) colors_data"
  have ok: "\<forall>row\<in>set colors_data. \<not> isl (episode_values dates_data row)"
    using vc vd by (simp add: valid_not_isl)
  from fold_insert_episode[of ?vs "working c"] obtain new where
    f: "fold insert_episode ?vs (working c) = (working c)\<lparr>episodes := episodes (working c) @ new\<rparr>"
    and m: "map episode_fields new = ?vs"
    and d: "distinct (map episode_id (episodes (working c))) \<longrightarrow>
            distinct (map episode_id (episodes (working c) @ new))"
    by blast
  have "import_episodes colors_data dates_data c =
      (None, commit (c\<lparr>working := (working c)\<lparr>episodes := episodes (working c) @ new\<rparr>\<rparr>))"
    using insert_episodes_valid[OF ok, of "working c"] f by (simp add: import_episodes_def)
  then show ?thesis using m d by blast
qed

lemma nth_fields:
  assumes "map episode_fields new = map f rows" and "i < length rows"
  shows "episode_fields (new ! i) = f (rows ! i)"
proof -
  have "length new = length rows" using assms(1) by (metis length_map)
  then have "episode_fields (new ! i) = map episode_fields new ! i" using assms(2) by simp
  then show ?thesis using assms by simp
qed

text \<open>
  C1. When every color row is valid, the import raises nothing, appends one episode row
  per color row, in order, with the row's title and its season and episode as integers,
  gives them keys that differ from each other and from the keys already there, and
  commits. Rows of the same episode thus yield as many episode rows. For any data at
  all, the number of rows inserted is the number of color rows processed, those before
  the first one that raises.
\<close>

theorem import_episodes_one_per_color_row:
  "((\<forall>row\<in>set colors_data. valid_color_row row) \<and> (\<forall>d\<in>set dates_data. valid_date_row d) \<longrightarrow>
     (\<exists>new. import_episodes colors_data dates_data c =
         (None, commit (c\<lparr>working := (working c)\<lparr>episodes := episodes (working c) @ new\<rparr>\<rparr>)) \<and>
       length new = length colors_data \<and>
       map title new = map (\<lambda>row. the (row ''painting_title'')) colors_data \<and>
       map season_number new = map (\<lambda>row. the (py_int (the (row ''season'')))) colors_data \<and>
       map episode_number new = map (\<lambda>row. the (py_int (the (row ''episode'')))) colors_data \<and>
       (distinct (map episode_id (episodes (working c))) \<longrightarrow>
        distinct (map episode_id (episodes (working c) @ new))))) \<and>
   length (episodes (working (snd (import_episodes colors_data dates_data c)))) =
     length (episodes (working c)) +
     length (takeWhile (\<lambda>row. \<not> isl (episode_values dates_data row)) colors_data)"
proof (intro conjI impI)
  assume v: "(\<forall>row\<in>set colors_data. valid_color_row row) \<and> (\<forall>d\<in>set dates_data. valid_date_row d)"
  then have vc: "\<forall>row\<in>set colors_data. valid_color_row row"
    and vd: "\<forall>d\<in>set dates_data. valid_date_row d" by simp_all
  from import_episodes_valid[OF vc vd, of c] obtain new where
    i: "import_episodes colors_data dates_data c =
         (None, commit (c\<lparr>working := (working c)\<lparr>episodes := episodes (working c) @ new\<rparr>\<rparr>))"
    and m: "map episode_fields new = map (\<lambda>row. projr (episode_values dates_data row)) colors_data"
    and d: "distinct (map episode_id (episodes (working c))) \<longrightarrow>
            distinct (map episode_id (episodes (working c) @ new))"
    by blast
  have len: "length new = length colors_data" using m by (metis length_map)
  have fields: "episode_fields (new ! k) = projr (episode_values dates_data (colors_data ! k))"
    if "k < length colors_data" for k
    using nth_fields[OF m that] .
  have vk: "valid_color_row (colors_data ! k)" if "k < length colors_data" for k
    using vc that by simp
  have t: "map title new = map (\<lambda>row. the (row ''painting_title'')) colors_data"
    using len fields vk
    by (intro nth_equalityI) (auto simp: episode_fields_def episode_values_valid[OF _ vd])
  have s: "map season_number new = map (\<lambda>row. the (py_int (the (row ''season'')))) colors_data"
    using len fields vk
    by (intro nth_equalityI) (auto simp: episode_fields_def episode_values_valid[OF _ vd])
  have e: "map episode_number new = map (\<lambda>row. the (py_int (the (row ''episode'')))) colors_data"
    using len fields vk
    by (intro nth_equalityI) (auto simp: episode_fields_def episode_values_valid[OF _ vd])
  show "\<exists>new. import_episodes colors_data dates_data c =
         (None, commit (c\<lparr>working := (working c)\<lparr>episodes := episodes (working c) @ new\<rparr>\<rparr>)) \<and>
       length new = length colors_data \<and>
       map title new = map (\<lambda>row. the (row ''painting_title'')) colors_data \<and>
       map season_number new = map (\<lambda>row. the (py_int (the (row ''season'')))) colors_data \<and>
       map episode_number new = map (\<lambda>row. the (py_int (the (row ''episode'')))) colors_data \<and>
       (distinct (map episode_id (episodes (working c))) \<longrightarrow>
        distinct (map episode_id (episodes (working c) @ new)))"
    by (rule exI[of _ new]) (rule conjI[OF i conjI[OF len conjI[OF t conjI[OF s conjI[OF e d]]]]])
next
  show "length (episodes (working (snd (import_episodes colors_data dates_data c)))) =
     length (episodes (working c)) +
     length (takeWhile (\<lambda>row. \<not> isl (episode_values dates_data row)) colors_data)"
    using insert_episodes_count[of colors_data dates_data "working c"]
    by (cases "insert_episodes colors_data dates_data (working c)")
       (auto simp: import_episodes_def commit_def split: option.splits)
qed

lemmas eval_defs = collect_rows_def colors_columns_def dict_zip_def valid_color_row_def
  valid_date_row_def py_int_def py_unsigned_def int_trim_def is_int_space_def int_max_str_digits_def
  strip_def is_space_def is_digit_def digit_val_def

text \<open>
  C1 on the sample: two color rows of one episode give two committed episode rows of
  that title.
\<close>

theorem import_episodes_one_per_color_row_witness:
  "list_all valid_color_row sample_colors \<and> list_all valid_date_row sample_dates \<and>
   length (episodes (working (snd (import_episodes sample_colors sample_dates fresh_connection)))) = 2 \<and>
   map title (episodes (durable (snd (import_episodes sample_colors sample_dates fresh_connection))))
     = [''Mountain Grandeur'', ''Mountain Grandeur'']"
proof -
  have v: "(\<forall>row\<in>set sample_colors. valid_color_row row) \<and> (\<forall>d\<in>set sample_dates. valid_date_row d)"
    by (simp add: sample_colors_def sample_dates_def eval_defs)
  from import_episodes_one_per_color_row[of sample_colors sample_dates fresh_connection] v
  obtain new where
    i: "import_episodes sample_colors sample_dates fresh_connection =
         (None, commit (fresh_connection\<lparr>working := (working fresh_connection)
            \<lparr>episodes := episodes (working fresh_connection) @ new\<rparr>\<rparr>))"
    and l: "length new = length sample_colors"
    and t: "map title new = map (\<lambda>row. the (row ''painting_title'')) sample_colors"
    by blast
  have t': "map title new = [''Mountain Grandeur'', ''Mountain Grandeur'']"
    using t by (simp add: sample_colors_def eval_defs)
  have l': "length new = 2" using l by (simp add: sample_colors_def collect_rows_def colors_columns_def)
  show ?thesis using v i t' l'
    by (simp add: list_all_iff commit_def fresh_connection_def empty_tables_def)
qed

lemma import_episodes_air_date:
  assumes vc: "\<forall>row\<in>set colors_data. valid_color_row row"
    and vd: "\<forall>d\<in>set dates_data. valid_date_row d"
    and i: "i < length colors_data"
    and ti: "(colors_data ! i) ''painting_title'' = Some ttl"
  shows "\<exists>new. import_episodes colors_data dates_data c =
           (None, commit (c\<lparr>working := (working c)\<lparr>episodes := episodes (working c) @ new\<rparr>\<rparr>)) \<and>
         length new = length colors_data \<and> title (new ! i) = ttl \<and>
         air_date (new ! i) =
           (case find (\<lambda>d. strip (the (d ''Title'')) = ttl) dates_data of
              None \<Rightarrow> None | Some d \<Rightarrow> d ''Date'')"
proof -
  from import_episodes_valid[OF vc vd, of c] obtain new where
    r: "import_episodes colors_data dates_data c =
         (None, commit (c\<lparr>working := (working c)\<lparr>episodes := episodes (working c) @ new\<rparr>\<rparr>))"
    and m: "map episode_fields new = map (\<lambda>row. projr (episode_values dates_data row)) colors_data"
    by blast
  have len: "length new = length colors_data" using m by (metis length_map)
  have v: "valid_color_row (colors_data ! i)" using vc i by simp
  have "episode_fields (new ! i) = projr (episode_values dates_data (colors_data ! i))"
    using nth_fields[OF m i] .
  then have f: "title (new ! i) = ttl \<and>
      air_date (new ! i) =
        (case find (\<lambda>d. strip (the (d ''Title'')) = ttl) dates_data of
           None \<Rightarrow> None | Some d \<Rightarrow> d ''Date'')"
    using ti by (simp add: episode_fields_def episode_values_valid[OF v vd])
  show ?thesis
    by (rule exI[of _ new]) (use r len f in simp)
qed

text \<open>
  C2. The air date of the episode of a color row: the \<open>Date\<close> of the first dates record,
  in file order, whose trimmed \<open>Title\<close> equals the row's title; null when no dates
  record is such. Nothing is raised in either case.
\<close>

theorem import_episodes_air_date_first_match:
  assumes vc: "\<forall>row\<in>set colors_data. valid_color_row row"
    and vd: "\<forall>d\<in>set dates_data. valid_date_row d"
    and i: "i < length colors_data"
    and ti: "(colors_data ! i) ''painting_title'' = Some ttl"
  shows "\<exists>new. import_episodes colors_data dates_data c =
           (None, commit (c\<lparr>working := (working c)\<lparr>episodes := episodes (working c) @ new\<rparr>\<rparr>)) \<and>
         length new = length colors_data \<and> title (new ! i) = ttl \<and>
         (\<forall>j t. j < length dates_data \<and> (dates_data ! j) ''Title'' = Some t \<and> strip t = ttl \<and>
             (\<forall>k t'. k < j \<and> (dates_data ! k) ''Title'' = Some t' \<longrightarrow> strip t' \<noteq> ttl)
            \<longrightarrow> air_date (new ! i) = (dates_data ! j) ''Date'' \<and> air_date (new ! i) \<noteq> None) \<and>
         ((\<forall>d t. d \<in> set dates_data \<and> d ''Title'' = Some t \<longrightarrow> strip t \<noteq> ttl)
            \<longrightarrow> air_date (new ! i) = None)"
proof -
  let ?P = "\<lambda>d. strip (the (d ''Title'')) = ttl"
  from import_episodes_air_date[OF vc vd i ti, of c] obtain new where
    r: "import_episodes colors_data dates_data c =
         (None, commit (c\<lparr>working := (working c)\<lparr>episodes := episodes (working c) @ new\<rparr>\<rparr>))"
    and len: "length new = length colors_data" and t: "title (new ! i) = ttl"
    and a: "air_date (new ! i) =
        (case find ?P dates_data of None \<Rightarrow> None | Some d \<Rightarrow> d ''Date'')"
    by blast
  have has: "\<exists>t. d ''Title'' = Some t" "d ''Date'' \<noteq> None" if "d \<in> set dates_data" for d
    using vd that by (auto simp: valid_date_row_def)
  have first: "air_date (new ! i) = (dates_data ! j) ''Date'' \<and> air_date (new ! i) \<noteq> None"
    if j: "j < length dates_data" and tj: "(dates_data ! j) ''Title'' = Some t" and m: "strip t = ttl"
      and before: "\<forall>k t'. k < j \<and> (dates_data ! k) ''Title'' = Some t' \<longrightarrow> strip t' \<noteq> ttl"
    for j t
  proof -
    have "\<not> ?P (dates_data ! k)" if "k < j" for k
    proof -
      have "dates_data ! k \<in> set dates_data" using that j by simp
      then obtain t' where "(dates_data ! k) ''Title'' = Some t'" using has(1) by blast
      then show ?thesis using before that by auto
    qed
    moreover have "?P (dates_data ! j)" using tj m by simp
    ultimately have "find ?P dates_data = Some (dates_data ! j)"
      using j by (auto simp: find_Some_iff)
    then show ?thesis using a has(2)[of "dates_data ! j"] j by simp
  qed
  have none: "air_date (new ! i) = None"
    if "\<forall>d t. d \<in> set dates_data \<and> d ''Title'' = Some t \<longrightarrow> strip t \<noteq> ttl"
  proof -
    have "\<not> ?P d" if "d \<in> set dates_data" for d
      using has(1)[OF that] \<open>\<forall>d t. d \<in> set dates_data \<and> d ''Title'' = Some t \<longrightarrow> strip t \<noteq> ttl\<close> that
      by auto
    then have "find ?P dates_data = None" by (auto simp: find_None_iff)
    then show ?thesis using a by simp
  qed
  show ?thesis
    by (rule exI[of _ new]) (use r len t first none in blast)
qed

text \<open>
  C10. Only the \<open>Title\<close> of a dates record is trimmed. A color row whose title begins
  or ends with whitespace matches no dates record, whatever the dates file holds, and its
  episode has a null air date.
\<close>

theorem import_episodes_padded_title_no_date:
  assumes vc: "\<forall>row\<in>set colors_data. valid_color_row row"
    and vd: "\<forall>d\<in>set dates_data. valid_date_row d"
    and i: "i < length colors_data"
    and ti: "(colors_data ! i) ''painting_title'' = Some ttl"
    and ne: "ttl \<noteq> []"
    and pad: "is_space (hd ttl) \<or> is_space (last ttl)"
  shows "(\<forall>d t. d \<in> set dates_data \<and> d ''Title'' = Some t \<longrightarrow> strip t \<noteq> ttl) \<and>
         (\<exists>new. import_episodes colors_data dates_data c =
           (None, commit (c\<lparr>working := (working c)\<lparr>episodes := episodes (working c) @ new\<rparr>\<rparr>)) \<and>
           length new = length colors_data \<and> title (new ! i) = ttl \<and> air_date (new ! i) = None)"
proof -
  let ?P = "\<lambda>d. strip (the (d ''Title'')) = ttl"
  have nomatch: "strip t \<noteq> ttl" for t using strip_neq_padded[OF ne pad] .
  from import_episodes_air_date[OF vc vd i ti, of c] obtain new where
    r: "import_episodes colors_data dates_data c =
         (None, commit (c\<lparr>working := (working c)\<lparr>episodes := episodes (working c) @ new\<rparr>\<rparr>))"
    and len: "length new = length colors_data" and t: "title (new ! i) = ttl"
    and a: "air_date (new ! i) =
        (case find ?P dates_data of None \<Rightarrow> None | Some d \<Rightarrow> d ''Date'')"
    by blast
  have "find ?P dates_data = None" using nomatch by (simp add: find_None_iff)
  then have n: "air_date (new ! i) = None" using a by simp
  have ex: "\<exists>new. import_episodes colors_data dates_data c =
           (None, commit (c\<lparr>working := (working c)\<lparr>episodes := episodes (working c) @ new\<rparr>\<rparr>)) \<and>
           length new = length colors_data \<and> title (new ! i) = ttl \<and> air_date (new ! i) = None"
    by (rule exI[of _ new]) (use r len t n in simp)
  show ?thesis using nomatch ex by blast
qed





text \<open>
  C2 on the sample: the dates title with a trailing blank matches after trimming.
\<close>

theorem import_episodes_air_date_first_match_witness:
  "list_all valid_color_row sample_colors \<and> list_all valid_date_row sample_dates \<and>
   map air_date (episodes (working (snd (import_episodes sample_colors sample_dates fresh_connection))))
     ! 1 = Some ''1983-01-11''"
proof -
  have vc: "\<forall>row\<in>set sample_colors. valid_color_row row"
    and vd: "\<forall>d\<in>set sample_dates. valid_date_row d"
    by (simp_all add: sample_colors_def sample_dates_def eval_defs)
  have i: "1 < length sample_colors" by (simp add: sample_colors_def eval_defs)
  have ti: "(sample_colors ! 1) ''painting_title'' = Some ''Mountain Grandeur''"
    by (simp add: sample_colors_def eval_defs)
  from import_episodes_air_date_first_match[OF vc vd i ti, of fresh_connection] obtain new where
    r: "import_episodes sample_colors sample_dates fresh_connection =
         (None, commit (fresh_connection\<lparr>working := (working fresh_connection)
            \<lparr>episodes := episodes (working fresh_connection) @ new\<rparr>\<rparr>))"
    and len: "length new = length sample_colors"
    and first: "\<forall>j t. j < length sample_dates \<and> (sample_dates ! j) ''Title'' = Some t \<and>
             strip t = ''Mountain Grandeur'' \<and>
             (\<forall>k t'. k < j \<and> (sample_dates ! k) ''Title'' = Some t' \<longrightarrow> strip t' \<noteq> ''Mountain Grandeur'')
            \<longrightarrow> air_date (new ! 1) = (sample_dates ! j) ''Date'' \<and> air_date (new ! 1) \<noteq> None"
    by blast
  have "0 < length sample_dates \<and> (sample_dates ! 0) ''Title'' = Some ''Mountain Grandeur '' \<and>
      strip ''Mountain Grandeur '' = ''Mountain Grandeur''"
    by (simp add: sample_dates_def eval_defs)
  with first have "air_date (new ! 1) = (sample_dates ! 0) ''Date''" by blast
  then have a: "air_date (new ! 1) = Some ''1983-01-11''"
    by (simp add: sample_dates_def eval_defs)
  have "map air_date (episodes (working (snd (import_episodes sample_colors sample_dates
      fresh_connection)))) ! 1 = air_date (new ! 1)"
    using r len i by (simp add: commit_def fresh_connection_def empty_tables_def)
  then show ?thesis using a vc vd by (simp add: list_all_iff)
qed

text \<open>
  C10 on the sample: the color title with a leading blank gets no date, though both
  titles trim to the same string.
\<close>

theorem import_episodes_padded_title_no_date_witness:
  "list_all valid_color_row padded_colors \<and> list_all valid_date_row sample_dates \<and>
   is_space (hd '' Mountain Grandeur'') \<and>
   strip '' Mountain Grandeur'' = strip ''Mountain Grandeur '' \<and>
   map air_date (episodes (working (snd (import_episodes padded_colors sample_dates fresh_connection))))
     = [None]"
proof -
  have vc: "\<forall>row\<in>set padded_colors. valid_color_row row"
    and vd: "\<forall>d\<in>set sample_dates. valid_date_row d"
    by (simp_all add: padded_colors_def sample_dates_def eval_defs)
  have i: "0 < length padded_colors" and l: "length padded_colors = 1"
    by (simp_all add: padded_colors_def eval_defs)
  have ti: "(padded_colors ! 0) ''painting_title'' = Some '' Mountain Grandeur''"
    by (simp add: padded_colors_def eval_defs)
  have ne: "'' Mountain Grandeur'' \<noteq> []" by simp
  have sp: "is_space (hd '' Mountain Grandeur'')" by (simp add: is_space_def)
  then have pad: "is_space (hd '' Mountain Grandeur'') \<or> is_space (last '' Mountain Grandeur'')"
    by simp
  have eq: "strip '' Mountain Grandeur'' = strip ''Mountain Grandeur ''"
    by (simp add: strip_def is_space_def)
  from import_episodes_padded_title_no_date[OF vc vd i ti ne pad, of fresh_connection]
  obtain new where
    r: "import_episodes padded_colors sample_dates fresh_connection =
         (None, commit (fresh_connection\<lparr>working := (working fresh_connection)
            \<lparr>episodes := episodes (working fresh_connection) @ new\<rparr>\<rparr>))"
    and len: "length new = length padded_colors"
    and a: "air_date (new ! 0) = None"
    by blast
  from len l a have "map air_date new = [None]"
    by (cases new) simp_all
  then show ?thesis using r vc vd sp eq
    by (simp add: list_all_iff commit_def fresh_connection_def empty_tables_def)
qed

section \<open>The subject-matter import\<close>

lemma set_add_props:
  "set (set_add x s) = insert x (set s) \<and> (distinct s \<longrightarrow> distinct (set_add x s))"
  by (auto simp: set_add_def)

lemma set_update_props:
  "set (set_update s xs) = set s \<union> set xs \<and> (distinct s \<longrightarrow> distinct (set_update s xs))"
  unfolding set_update_def
proof (induction xs arbitrary: s)
  case Nil
  then show ?case by simp
next
  case (Cons x xs)
  from Cons.IH[of "set_add x s"] set_add_props[of x s] show ?case by auto
qed

lemma collect_subjects_props:
  assumes "\<forall>row\<in>set rows. row ''EPISODE'' \<noteq> None"
  shows "\<exists>s'. collect_subjects rows s = Inr s' \<and>
           set s' = set s \<union> (\<Union>row\<in>set rows. set (split (the (row ''EPISODE'')) (CHR '';''))) \<and>
           (distinct s \<longrightarrow> distinct s')"
  using assms
proof (induction rows arbitrary: s)
  case Nil
  then show ?case by simp
next
  case (Cons row rows)
  then obtain v where v: "row ''EPISODE'' = Some v" by auto
  let ?s1 = "set_update s (split v (CHR '';''))"
  from Cons.IH[of ?s1] Cons.prems obtain s' where
    c: "collect_subjects rows ?s1 = Inr s'"
    and st: "set s' = set ?s1 \<union> (\<Union>row\<in>set rows. set (split (the (row ''EPISODE'')) (CHR '';'')))"
    and d: "distinct ?s1 \<longrightarrow> distinct s'"
    by auto
  have "collect_subjects (row # rows) s = Inr s'"
    using c v by (simp add: and_then_def getitem_def)
  moreover have "set s' = set s \<union>
      (\<Union>row\<in>set (row # rows). set (split (the (row ''EPISODE'')) (CHR '';'')))"
    using st v set_update_props[of s "split v (CHR '';'')"] by auto
  moreover have "distinct s \<longrightarrow> distinct s'"
    using d set_update_props[of s "split v (CHR '';'')"] by simp
  ultimately show ?case by simp
qed

lemma fold_insert_subject_matter:
  "\<exists>new. fold insert_subject_matter names t = t\<lparr>subject_matters := subject_matters t @ new\<rparr> \<and>
     map subject_matter_name new = names"
proof (induction names arbitrary: t)
  case Nil
  then show ?case by simp
next
  case (Cons n names)
  define r where "r = last (subject_matters (insert_subject_matter n t))"
  have e: "insert_subject_matter n t = t\<lparr>subject_matters := subject_matters t @ [r]\<rparr>"
    and rn: "subject_matter_name r = n"
    unfolding r_def by (simp_all add: insert_subject_matter_def)
  from Cons.IH[of "insert_subject_matter n t"] obtain new where
    f: "fold insert_subject_matter names (insert_subject_matter n t) =
          (insert_subject_matter n t)\<lparr>subject_matters :=
             subject_matters (insert_subject_matter n t) @ new\<rparr>"
    and m: "map subject_matter_name new = names"
    by blast
  have a: "fold insert_subject_matter (n # names) t =
      t\<lparr>subject_matters := subject_matters t @ (r # new)\<rparr>"
    using f e by simp
  have b: "map subject_matter_name (r # new) = n # names" using rn m by simp
  show ?case by (rule exI[of _ "r # new"]) (rule conjI[OF a b])
qed

lemma count_list_distinct: "distinct xs \<Longrightarrow> count_list xs x = (if x \<in> set xs then 1 else 0)"
  by (induction xs) auto

text \<open>
  C6. Each row's field is split on \<open>;\<close>, the tokens are gathered in a set under plain
  string equality, and one row is inserted per element of the set, in whatever order
  the set is iterated: the names inserted are exactly the tokens of all rows, each once.
  The import raises nothing and commits.
\<close>

theorem import_subject_matters_one_per_token:
  assumes keys: "\<forall>row\<in>set subject_matters_data. row ''EPISODE'' \<noteq> None"
    and ord: "\<forall>s. distinct s \<longrightarrow> distinct (iter_order s) \<and> set (iter_order s) = set s"
  shows "\<exists>new. import_subject_matters iter_order subject_matters_data c =
           (None, commit (c\<lparr>working := (working c)\<lparr>subject_matters :=
              subject_matters (working c) @ new\<rparr>\<rparr>)) \<and>
         set (map subject_matter_name new) =
           (\<Union>row\<in>set subject_matters_data. set (split (the (row ''EPISODE'')) (CHR '';''))) \<and>
         distinct (map subject_matter_name new) \<and>
         (\<forall>tok. count_list (map subject_matter_name new) tok =
            (if tok \<in> (\<Union>row\<in>set subject_matters_data.
                 set (split (the (row ''EPISODE'')) (CHR '';''))) then 1 else 0))"
proof -
  let ?toks = "\<Union>row\<in>set subject_matters_data. set (split (the (row ''EPISODE'')) (CHR '';''))"
  from collect_subjects_props[OF keys, of "[]"] obtain s where
    c: "collect_subjects subject_matters_data [] = Inr s"
    and st: "set s = ?toks" and d: "distinct s"
    by auto
  have od: "distinct (iter_order s)" and os: "set (iter_order s) = ?toks"
    using ord d st by auto
  from fold_insert_subject_matter[of "iter_order s" "working c"] obtain new where
    f: "fold insert_subject_matter (iter_order s) (working c) =
          (working c)\<lparr>subject_matters := subject_matters (working c) @ new\<rparr>"
    and m: "map subject_matter_name new = iter_order s"
    by blast
  have r: "import_subject_matters iter_order subject_matters_data c =
           (None, commit (c\<lparr>working := (working c)\<lparr>subject_matters :=
              subject_matters (working c) @ new\<rparr>\<rparr>))"
    using c f by (simp add: import_subject_matters_def)
  have cnt: "\<forall>tok. count_list (map subject_matter_name new) tok = (if tok \<in> ?toks then 1 else 0)"
    using count_list_distinct[OF od] os m by simp
  have sd: "set (map subject_matter_name new) = ?toks" "distinct (map subject_matter_name new)"
    using m os od by simp_all
  show ?thesis
    by (rule exI[of _ new]) (rule conjI[OF r conjI[OF sd(1) conjI[OF sd(2) cnt]]])
qed

text \<open>
  C6 on the sample: \<open>TREE\<close> and \<open>MOUNTAIN\<close> occur twice and are inserted once; the tag
  with a leading blank is a tag of its own.
\<close>

theorem import_subject_matters_one_per_token_witness:
  "list_all (\<lambda>row. row ''EPISODE'' \<noteq> None) sample_subjects \<and>
   set (map subject_matter_name (subject_matters (working (snd
     (import_subject_matters rev sample_subjects fresh_connection))))) =
       {''MOUNTAIN'', ''TREE'', '' SNOW''} \<and>
   length (subject_matters (durable (snd
     (import_subject_matters rev sample_subjects fresh_connection)))) = 3"
proof -
  have keys: "\<forall>row\<in>set sample_subjects. row ''EPISODE'' \<noteq> None"
    by (simp add: sample_subjects_def collect_rows_def dict_zip_def)
  have ord: "\<forall>s::string list. distinct s \<longrightarrow> distinct (rev s) \<and> set (rev s) = set s"
    by simp
  have toks: "(\<Union>row\<in>set sample_subjects. set (split (the (row ''EPISODE'')) (CHR '';''))) =
      {''MOUNTAIN'', ''TREE'', '' SNOW''}"
    by (simp add: sample_subjects_def collect_rows_def dict_zip_def split_def) auto
  from import_subject_matters_one_per_token[OF keys ord, of fresh_connection] obtain new where
    r: "import_subject_matters rev sample_subjects fresh_connection =
           (None, commit (fresh_connection\<lparr>working := (working fresh_connection)\<lparr>subject_matters :=
              subject_matters (working fresh_connection) @ new\<rparr>\<rparr>))"
    and s: "set (map subject_matter_name new) =
       (\<Union>row\<in>set sample_subjects. set (split (the (row ''EPISODE'')) (CHR '';'')))"
    and d: "distinct (map subject_matter_name new)"
    by blast
  have s': "set (map subject_matter_name new) = {''MOUNTAIN'', ''TREE'', '' SNOW''}"
    using s toks by simp
  have "card (set (map subject_matter_name new)) = 3" unfolding s' by simp
  then have l: "length new = 3" using d distinct_card[OF d] by simp
  show ?thesis using keys r s' l
    by (simp add: list_all_iff commit_def fresh_connection_def empty_tables_def)
qed

section \<open>The schema\<close>

lemma create_present:
  "table_name t \<in> set (map table_name defs) \<Longrightarrow> create_table_if_not_exists t defs = Inr defs"
  by (simp add: create_table_if_not_exists_def)

lemma create_result:
  assumes "create_table_if_not_exists t defs = Inr defs'"
  shows "set (map table_name defs') = insert (table_name t) (set (map table_name defs)) \<and>
         (distinct (map table_name defs) \<longrightarrow> distinct (map table_name defs'))"
  using assms by (auto simp: create_table_if_not_exists_def split: if_splits)

lemma execute_all_present:
  "set (map table_name qs) \<subseteq> set (map table_name defs) \<Longrightarrow> execute_all qs defs = (None, defs)"
  by (induction qs) (simp_all add: create_present)

lemma execute_all_result:
  "execute_all qs defs = (None, defs') \<Longrightarrow>
   set (map table_name defs') = set (map table_name qs) \<union> set (map table_name defs) \<and>
   (distinct (map table_name defs) \<longrightarrow> distinct (map table_name defs'))"
proof (induction qs arbitrary: defs)
  case Nil
  then show ?case by simp
next
  case (Cons q qs)
  from Cons.prems obtain d1 where
    c: "create_table_if_not_exists q defs = Inr d1" and e: "execute_all qs d1 = (None, defs')"
    by (auto split: sum.splits)
  from Cons.IH[OF e] create_result[OF c] show ?case by auto
qed

lemma setup_tables_again:
  assumes "setup_tables c = (None, c')"
  shows "setup_tables c' = (None, c')"
proof -
  from assms obtain defs where
    e: "execute_all queries (table_defs c) = (None, defs)"
    and c': "c' = commit (c\<lparr>table_defs := defs\<rparr>)"
    by (cases "execute_all queries (table_defs c)")
       (auto simp: setup_tables_def split: option.splits)
  have "set (map table_name queries) \<subseteq> set (map table_name defs)"
    using execute_all_result[OF e] by simp
  then have "execute_all queries (table_defs c') = (None, table_defs c')"
    using c' by (simp add: execute_all_present commit_def)
  then show ?thesis using c' by (simp add: setup_tables_def commit_def)
qed

text \<open>
  A call that raises keeps the tables created before the failing statement: with an
  \<open>episodes\<close> table that lacks the key column, \<open>colors\<close> is created and the first join
  table is rejected.
\<close>

lemma setup_tables_failure_keeps_created:
  "setup_tables (fresh_connection\<lparr>table_defs :=
       [\<lparr>table_name = ''episodes'', table_columns = [(''title'', ''VARCHAR(255)'')],
         foreign_keys = []\<rparr>]\<rparr>) =
     (Some (MySQLError ''episode_colors''),
      fresh_connection\<lparr>table_defs :=
       [\<lparr>table_name = ''episodes'', table_columns = [(''title'', ''VARCHAR(255)'')],
         foreign_keys = []\<rparr>, colors_def]\<rparr>)"
  by (simp add: setup_tables_def fresh_connection_def queries_def
      create_table_if_not_exists_def fk_resolves_def episodes_def_def colors_def_def
      episode_colors_def_def subject_matters_def_def episode_subject_matters_def_def)

lemma setup_tables_times_fixed:
  "setup_tables c' = (None, c') \<Longrightarrow> setup_tables_times n c' = (None, c')"
  by (induction n) simp_all

lemma queries_names:
  "map table_name queries =
     [''episodes'', ''colors'', ''episode_colors'', ''subject_matters'', ''episode_subject_matters'']"
  by (simp add: queries_def episodes_def_def colors_def_def episode_colors_def_def
      subject_matters_def_def episode_subject_matters_def_def)

lemma setup_tables_fresh:
  "setup_tables fresh_connection = (None, fresh_connection\<lparr>table_defs := queries\<rparr>)"
  by (simp add: setup_tables_def fresh_connection_def commit_def queries_def
      create_table_if_not_exists_def fk_resolves_def episodes_def_def colors_def_def
      episode_colors_def_def subject_matters_def_def episode_subject_matters_def_def)

text \<open>
  C8, as the code has it. After a call that raised nothing, any number of further calls
  raise nothing and change nothing; the table names are those present before together
  with the five of \<open>queries\<close>, and no name is defined twice if none was. On a database
  without tables, one or more calls leave exactly the five definitions of \<open>queries\<close>:
  three tables without foreign keys and the two join tables.
\<close>

theorem setup_tables_idempotent:
  "(setup_tables c = (None, c') \<longrightarrow>
      setup_tables_times n c' = (None, c') \<and>
      set (map table_name (table_defs c')) =
        set (map table_name queries) \<union> set (map table_name (table_defs c)) \<and>
      (distinct (map table_name (table_defs c)) \<longrightarrow> distinct (map table_name (table_defs c')))) \<and>
   setup_tables_times (Suc n) fresh_connection = (None, fresh_connection\<lparr>table_defs := queries\<rparr>) \<and>
   map table_name queries =
     [''episodes'', ''colors'', ''episode_colors'', ''subject_matters'', ''episode_subject_matters''] \<and>
   map table_name (filter (\<lambda>t. foreign_keys t \<noteq> []) queries) =
     [''episode_colors'', ''episode_subject_matters'']"
proof (intro conjI impI)
  assume a: "setup_tables c = (None, c')"
  show "setup_tables_times n c' = (None, c')"
    using setup_tables_times_fixed[OF setup_tables_again[OF a]] .
  from a obtain defs where
    e: "execute_all queries (table_defs c) = (None, defs)"
    and c': "c' = commit (c\<lparr>table_defs := defs\<rparr>)"
    by (cases "execute_all queries (table_defs c)")
       (auto simp: setup_tables_def split: option.splits)
  have d: "table_defs c' = defs" using c' by (simp add: commit_def)
  show "set (map table_name (table_defs c')) =
        set (map table_name queries) \<union> set (map table_name (table_defs c))"
    using execute_all_result[OF e] d by simp
  show "distinct (map table_name (table_defs c'))" if "distinct (map table_name (table_defs c))"
    using execute_all_result[OF e] d that by simp
next
  have "setup_tables_times n (fresh_connection\<lparr>table_defs := queries\<rparr>) =
      (None, fresh_connection\<lparr>table_defs := queries\<rparr>)"
    using setup_tables_times_fixed[OF setup_tables_again[OF setup_tables_fresh]] .
  then show "setup_tables_times (Suc n) fresh_connection =
      (None, fresh_connection\<lparr>table_defs := queries\<rparr>)"
    by (simp add: setup_tables_fresh)
next
  show "map table_name queries =
     [''episodes'', ''colors'', ''episode_colors'', ''subject_matters'', ''episode_subject_matters'']"
    by (rule queries_names)
next
  show "map table_name (filter (\<lambda>t. foreign_keys t \<noteq> []) queries) =
     [''episode_colors'', ''episode_subject_matters'']"
    by (simp add: queries_def episodes_def_def colors_def_def episode_colors_def_def
      subject_matters_def_def episode_subject_matters_def_def)
qed

text \<open>
  C8 on a database without tables: the first call succeeds, three more change nothing.
\<close>

theorem setup_tables_idempotent_witness:
  "fst (setup_tables fresh_connection) = None \<and>
   setup_tables_times 3 (snd (setup_tables fresh_connection)) =
     (None, snd (setup_tables fresh_connection)) \<and>
   length (table_defs (snd (setup_tables fresh_connection))) = 5"
proof -
  have a: "setup_tables fresh_connection = (None, fresh_connection\<lparr>table_defs := queries\<rparr>)"
    by (rule setup_tables_fresh)
  from setup_tables_idempotent[of fresh_connection "fresh_connection\<lparr>table_defs := queries\<rparr>" 3] a
  have "setup_tables_times 3 (fresh_connection\<lparr>table_defs := queries\<rparr>) =
      (None, fresh_connection\<lparr>table_defs := queries\<rparr>)"
    by blast
  then show ?thesis using a by (simp add: queries_def)
qed

text \<open>
  C8, as the claim has it, fails: two calls on a database without tables do not leave
  five tables without foreign keys, nor seven tables in all.
\<close>

theorem setup_tables_seven_tables_counterexample:
  "length (filter (\<lambda>t. foreign_keys t = [])
     (table_defs (snd (setup_tables_times 2 fresh_connection)))) \<noteq> 5 \<and>
   length (table_defs (snd (setup_tables_times 2 fresh_connection))) \<noteq> 7"
proof -
  have "setup_tables_times (Suc (Suc 0)) fresh_connection =
      (None, fresh_connection\<lparr>table_defs := queries\<rparr>)"
    using setup_tables_times_fixed[OF setup_tables_again[OF setup_tables_fresh], of "Suc 0"]
    by (simp add: setup_tables_fresh)
  then have "table_defs (snd (setup_tables_times 2 fresh_connection)) = queries"
    by (simp add: numeral_2_eq_2)
  then show ?thesis
    by (simp add: queries_def episodes_def_def colors_def_def episode_colors_def_def
      subject_matters_def_def episode_subject_matters_def_def)
qed

section \<open>The HTTP handler\<close>

lemma episode_object:
  "dict_zip (map fst (table_columns episodes_def)) (episode_tuple e) =
     [''episode_id'' \<mapsto> SqlInt (int (episode_id e)), ''title'' \<mapsto> SqlStr (title e),
      ''season_number'' \<mapsto> SqlInt (season_number e),
      ''episode_number'' \<mapsto> SqlInt (episode_number e),
      ''painting_img_src'' \<mapsto> SqlStr (painting_img_src e),
      ''painting_yt_src'' \<mapsto> SqlStr (painting_yt_src e),
      ''air_date'' \<mapsto> (case air_date e of None \<Rightarrow> SqlNull | Some d \<Rightarrow> SqlStr d)]"
  by (rule ext) (simp add: dict_zip_def episodes_def_def episode_tuple_def)

lemma filter_nonempty_hd:
  "\<exists>x\<in>set xs. P x \<Longrightarrow> \<exists>e rest. filter P xs = e # rest \<and> e \<in> set xs \<and> P e"
  by (induction xs) auto

text \<open>
  C9. With the server answering: status 200 and the row with that key as an object of its
  seven columns when there is such a row, status 404 and the fixed error object when there
  is none. With the server raising: status 500 and the exception's message.
\<close>

theorem get_episode_responses:
  "(server = Inr t \<and> (\<exists>e\<in>set (episodes t). episode_id e = i) \<longrightarrow>
      (\<exists>e\<in>set (episodes t). episode_id e = i \<and>
         get_episode server i =
           (200, [''episode_id'' \<mapsto> SqlInt (int (episode_id e)), ''title'' \<mapsto> SqlStr (title e),
              ''season_number'' \<mapsto> SqlInt (season_number e),
              ''episode_number'' \<mapsto> SqlInt (episode_number e),
              ''painting_img_src'' \<mapsto> SqlStr (painting_img_src e),
              ''painting_yt_src'' \<mapsto> SqlStr (painting_yt_src e),
              ''air_date'' \<mapsto> (case air_date e of None \<Rightarrow> SqlNull | Some d \<Rightarrow> SqlStr d)]))) \<and>
   (server = Inr t \<and> \<not> (\<exists>e\<in>set (episodes t). episode_id e = i) \<longrightarrow>
      get_episode server i = (404, [''error'' \<mapsto> SqlStr ''Episode not found''])) \<and>
   (server = Inl msg \<longrightarrow> get_episode server i = (500, [''error'' \<mapsto> SqlStr msg]))"
proof (intro conjI impI)
  assume a: "server = Inr t \<and> (\<exists>e\<in>set (episodes t). episode_id e = i)"
  then obtain e rest where
    f: "filter (\<lambda>e. episode_id e = i) (episodes t) = e # rest"
    and m: "e \<in> set (episodes t)" and id: "episode_id e = i"
    using filter_nonempty_hd[of "episodes t" "\<lambda>e. episode_id e = i"] by blast
  have ne: "episode_tuple e \<noteq> []" by (simp add: episode_tuple_def)
  have "get_episode server i =
      (200, dict_zip (map fst (table_columns episodes_def)) (episode_tuple e))"
    using a f ne by (simp add: get_episode_def select_episode_def fetchone_def)
  then show "\<exists>e\<in>set (episodes t). episode_id e = i \<and>
         get_episode server i =
           (200, [''episode_id'' \<mapsto> SqlInt (int (episode_id e)), ''title'' \<mapsto> SqlStr (title e),
              ''season_number'' \<mapsto> SqlInt (season_number e),
              ''episode_number'' \<mapsto> SqlInt (episode_number e),
              ''painting_img_src'' \<mapsto> SqlStr (painting_img_src e),
              ''painting_yt_src'' \<mapsto> SqlStr (painting_yt_src e),
              ''air_date'' \<mapsto> (case air_date e of None \<Rightarrow> SqlNull | Some d \<Rightarrow> SqlStr d)])"
    using m id unfolding episode_object by blast
next
  assume a: "server = Inr t \<and> \<not> (\<exists>e\<in>set (episodes t). episode_id e = i)"
  then have "filter (\<lambda>e. episode_id e = i) (episodes t) = []"
    by (auto simp: filter_empty_conv)
  then show "get_episode server i = (404, [''error'' \<mapsto> SqlStr ''Episode not found''])"
    using a by (simp add: get_episode_def select_episode_def fetchone_def)
next
  assume "server = Inl msg"
  then show "get_episode server i = (500, [''error'' \<mapsto> SqlStr msg])"
    by (simp add: get_episode_def)
qed

text \<open>
  C9 on a table of one episode: its key, a key that is absent, and a failing server.
\<close>

theorem get_episode_responses_witness:
  "fst (get_episode (Inr (empty_tables\<lparr>episodes := [sample_episode]\<rparr>)) 7) = 200 \<and>
   snd (get_episode (Inr (empty_tables\<lparr>episodes := [sample_episode]\<rparr>)) 7) ''title''
     = Some (SqlStr ''Mountain Grandeur'') \<and>
   get_episode (Inr (empty_tables\<lparr>episodes := [sample_episode]\<rparr>)) 999999
     = (404, [''error'' \<mapsto> SqlStr ''Episode not found'']) \<and>
   get_episode (Inl ''connection refused'') 7 = (500, [''error'' \<mapsto> SqlStr ''connection refused''])"
proof -
  let ?t = "empty_tables\<lparr>episodes := [sample_episode]\<rparr>"
  have ex: "\<exists>e\<in>set (episodes ?t). episode_id e = 7" by (simp add: sample_episode_def)
  have nex: "\<not> (\<exists>e\<in>set (episodes ?t). episode_id e = 999999)" by (simp add: sample_episode_def)
  from get_episode_responses[of "Inr ?t" ?t 7 msg] ex
  obtain e where e: "e \<in> set (episodes ?t)" and
    g: "get_episode (Inr ?t) 7 =
           (200, [''episode_id'' \<mapsto> SqlInt (int (episode_id e)), ''title'' \<mapsto> SqlStr (title e),
              ''season_number'' \<mapsto> SqlInt (season_number e),
              ''episode_number'' \<mapsto> SqlInt (episode_number e),
              ''painting_img_src'' \<mapsto> SqlStr (painting_img_src e),
              ''painting_yt_src'' \<mapsto> SqlStr (painting_yt_src e),
              ''air_date'' \<mapsto> (case air_date e of None \<Rightarrow> SqlNull | Some d \<Rightarrow> SqlStr d)])"
    by blast
  from e have es: "e = sample_episode" by simp
  have a: "fst (get_episode (Inr ?t) 7) = 200"
    and b: "snd (get_episode (Inr ?t) 7) ''title'' = Some (SqlStr ''Mountain Grandeur'')"
    unfolding g es by (simp_all add: sample_episode_def)
  have c: "get_episode (Inr ?t) 999999 = (404, [''error'' \<mapsto> SqlStr ''Episode not found''])"
    using get_episode_responses[of "Inr ?t" ?t 999999 msg] nex by blast
  have d: "get_episode (Inl ''connection refused'') 7 =
      (500, [''error'' \<mapsto> SqlStr ''connection refused''])"
    using get_episode_responses[of "Inl ''connection refused''" t 7 "''connection refused''"]
    by blast
  show ?thesis using a b c d by simp
qed

lemmas run_defs = import_data_def read_file_def then_run_def import_episodes_def
  import_colors_def import_subject_matters_def commit_def fresh_connection_def empty_tables_def
  episode_values_def and_then_def getitem_def to_int_def insert_episode_def insert_color_def
  insert_subject_matter_def set_update_def set_add_def split_def next_id_def
  collect_rows_def colors_columns_def dict_zip_def py_int_def py_unsigned_def int_trim_def
  is_int_space_def int_max_str_digits_def strip_def
  is_space_def is_digit_def digit_val_def

text \<open>
  C3 fails on the code. A run on three well-formed files imports and commits episodes and
  colors, then raises AttributeError at the call of \<open>_import_episode_colors\<close>, which the
  class does not define; both join tables stay empty.
\<close>

theorem import_data_links_nothing:
  "fst (import_data (\<lambda>s. s) (Some scenario_colors_file) (Some scenario_subject_file)
      (Some scenario_dates_file) fresh_connection) = Some (AttributeError ''_import_episode_colors'') \<and>
   map episode_fields (episodes (durable (snd (import_data (\<lambda>s. s) (Some scenario_colors_file)
      (Some scenario_subject_file) (Some scenario_dates_file) fresh_connection)))) =
     [(''Mountain Grandeur'', 1, 1, ''img1'', ''yt1'', Some ''1983-01-11''),
      (''Mountain Grandeur'', 1, 1, ''img1'', ''yt1'', Some ''1983-01-11'')] \<and>
   map color_name (colors (durable (snd (import_data (\<lambda>s. s) (Some scenario_colors_file)
      (Some scenario_subject_file) (Some scenario_dates_file) fresh_connection)))) =
     [''Van Dyke Brown'', ''Titanium White''] \<and>
   episode_colors (working (snd (import_data (\<lambda>s. s) (Some scenario_colors_file)
      (Some scenario_subject_file) (Some scenario_dates_file) fresh_connection))) = [] \<and>
   episode_subject_matters (working (snd (import_data (\<lambda>s. s) (Some scenario_colors_file)
      (Some scenario_subject_file) (Some scenario_dates_file) fresh_connection))) = []"
  by (simp add: scenario_colors_file_def scenario_subject_file_def scenario_dates_file_def
      run_defs episode_fields_def)

section \<open>The whole run\<close>

text \<open>For any input, \<open>import_data\<close> raises and leaves both join tables as they were.\<close>

lemma then_run_raised: "fst r \<noteq> None \<Longrightarrow> fst (then_run r step) \<noteq> None"
  by (cases r) (auto simp: then_run_def split: option.splits)

lemma import_data_always_raises:
  "fst (import_data iter_order colors_file subject_file dates_file c) \<noteq> None"
  by (auto simp: import_data_def then_run_def split: sum.splits option.splits prod.splits)

lemma insert_episodes_joins:
  "episode_colors (snd (insert_episodes rows dates t)) = episode_colors t \<and>
   episode_subject_matters (snd (insert_episodes rows dates t)) = episode_subject_matters t"
  by (induction rows arbitrary: t) (auto simp: insert_episode_def split: sum.splits prod.splits)

lemma fold_insert_color_joins:
  "episode_colors (fold insert_color ps t) = episode_colors t \<and>
   episode_subject_matters (fold insert_color ps t) = episode_subject_matters t"
  by (induction ps arbitrary: t) (auto simp: insert_color_def)

lemma fold_insert_subject_joins:
  "episode_colors (fold insert_subject_matter ns t) = episode_colors t \<and>
   episode_subject_matters (fold insert_subject_matter ns t) = episode_subject_matters t"
  by (induction ns arbitrary: t) (auto simp: insert_subject_matter_def)

lemma import_episodes_joins: "joins (snd (import_episodes cd dd c)) = joins c"
  using insert_episodes_joins[of cd dd "working c"]
  by (cases "insert_episodes cd dd (working c)")
     (auto simp: joins_def import_episodes_def commit_def split: option.splits)

lemma import_colors_joins: "joins (snd (import_colors cd c)) = joins c"
  using fold_insert_color_joins
  by (auto simp: joins_def import_colors_def commit_def split: sum.splits)

lemma import_subject_matters_joins: "joins (snd (import_subject_matters ord sd c)) = joins c"
  using fold_insert_subject_joins
  by (auto simp: joins_def import_subject_matters_def commit_def split: sum.splits)

lemma then_run_joins:
  "joins (snd r) = j \<Longrightarrow> (\<And>c. joins (snd (step c)) = joins c) \<Longrightarrow> joins (snd (then_run r step)) = j"
  by (cases r) (auto simp: then_run_def split: option.splits)

lemma import_data_joins:
  "joins (snd (import_data iter_order colors_file subject_file dates_file c)) = joins c"
  unfolding import_data_def
  by (auto split: sum.splits
      intro!: then_run_joins import_episodes_joins import_colors_joins import_subject_matters_joins)

end
